theory Spec2Isabelle
  imports
    Complex_Main
    "HOL-Library.Char_ord"
    "HOL-Library.List_Lexorder"
    "HOL-Library.Product_Lexorder"
    "HOL-Library.Sublist"
    "HOL-Library.Log_Nat"
begin

section \<open>The course feedback dashboard (app.py)\<close>

text \<open>
  The program is one script. It loads a table of feedback records, narrows it with three
  sidebar widgets, and computes the key metrics and the tables behind the charts from
  the narrowed table. The embedding follows the script from top to bottom; each
  definition names the lines it translates.

  Conventions of the embedding:
  \<^item> a data frame is the list of its rows, in row order; a boolean-mask selection
    \<^verbatim>\<open>data[mask]\<close> is \<^const>\<open>filter\<close>;
  \<^item> a Python float is a \<^typ>\<open>rat option\<close>: \<open>None\<close> is NaN, the other values are
    the rationals they stand for. The ratings are taken as they are and their means are
    exact; the percentages of line 203 are rounded as 64-bit floats are, operation by
    operation (\<open>binary64\<close> below);
  \<^item> the routine that sorts a table by a column is a parameter of the script: the
    script leaves it to the library, which does not fix the order of rows with equal
    values (\<open>argsort\<close> below);
  \<^item> a missing cell (NaN in a column) is \<open>None\<close>; the columns \<open>Student_ID\<close> and
    \<open>Subject\<close> are taken to be complete, \<open>Rating\<close> and \<open>Comment\<close> may have
    missing cells;
  \<^item> the table has the four columns the script asks for, so each of its
    \<^verbatim>\<open>if ... in data.columns\<close> tests succeeds;
  \<^item> a widget is a function from what the script passes to it to what the user
    selected; the widgets are a parameter of the script, and a widget call is taken to
    return (what Streamlit itself does with unusual bounds is outside the script);
  \<^item> an exception is a value \<open>Inl e\<close> of the result.
\<close>

subsection \<open>Data model\<close>

type_synonym pyfloat = "rat option"

record row =
  Student_ID :: int
  Subject :: string
  Rating :: pyfloat
  Comment :: "string option"

datatype error = ValueError

text \<open>Comparison of floats: every comparison with NaN is false.\<close>

fun fle :: "pyfloat \<Rightarrow> pyfloat \<Rightarrow> bool" where
  "fle (Some x) (Some y) = (x \<le> y)"
| "fle _ _ = False"

definition fge :: "pyfloat \<Rightarrow> pyfloat \<Rightarrow> bool" where
  "fge a b = fle b a"

subsection \<open>The pandas operations the script uses\<close>

text \<open>\<^verbatim>\<open>Series.unique()\<close>: the distinct values in order of first appearance.\<close>

fun unique :: "'a list \<Rightarrow> 'a list" where
  "unique [] = []"
| "unique (x # xs) = x # unique (filter (\<lambda>y. y \<noteq> x) xs)"

text \<open>The cells of a column that are not missing.\<close>

fun present :: "'a option list \<Rightarrow> 'a list" where
  "present [] = []"
| "present (None # xs) = present xs"
| "present (Some v # xs) = v # present xs"

text \<open>
  \<^verbatim>\<open>Series.min()\<close> and \<^verbatim>\<open>Series.max()\<close> skip missing cells and return NaN when
  nothing is left, also for an integer column without rows.
\<close>

definition series_min :: "('a::linorder) list \<Rightarrow> 'a option" where
  "series_min xs = (case xs of [] \<Rightarrow> None | v # vs \<Rightarrow> Some (fold min vs v))"

definition series_max :: "('a::linorder) list \<Rightarrow> 'a option" where
  "series_max xs = (case xs of [] \<Rightarrow> None | v # vs \<Rightarrow> Some (fold max vs v))"

text \<open>\<^verbatim>\<open>int(x)\<close> raises ValueError on NaN.\<close>

definition py_int :: "int option \<Rightarrow> error + int" where
  "py_int v = (case v of None \<Rightarrow> Inl ValueError | Some n \<Rightarrow> Inr n)"

text \<open>
  Sorting a table by a column. pandas passes the column to \<^verbatim>\<open>ndarray.argsort\<close> with
  \<^verbatim>\<open>kind='quicksort'\<close>, its default, and takes the rows at the positions that come
  back. That routine is not stable, and the script does not say which of the rows with
  equal values comes first. The routine is therefore a parameter \<open>kind\<close> of the model, and
  all that is used of it is what every sorting routine does: it returns each position of
  the column once, in an ascending order of the values found there.
\<close>

definition is_argsort :: "('k::linorder) list \<Rightarrow> nat list \<Rightarrow> bool" where
  "is_argsort keys idx \<longleftrightarrow> sort idx = [0..<length keys] \<and> sorted (map ((!) keys) idx)"

text \<open>One such routine is insertion sort, which leaves equal values in the order they have.\<close>

definition insertion_argsort :: "('k::linorder) list \<Rightarrow> nat list" where
  "insertion_argsort keys = map snd (sort_key fst (zip keys [0..<length keys]))"

text \<open>
  \<^verbatim>\<open>values.argsort(kind=kind)\<close>. A \<open>kind\<close> stands for the routine that answers as
  \<open>kind\<close> does wherever that is a sorted arrangement of the positions, and as insertion
  sort does elsewhere; so \<open>kind\<close> ranges over all sorting routines, and no others.
\<close>

definition argsort :: "('k list \<Rightarrow> nat list) \<Rightarrow> ('k::linorder) list \<Rightarrow> nat list" where
  "argsort kind keys =
     (if is_argsort keys (kind keys) then kind keys else insertion_argsort keys)"

text \<open>The rows of a table in ascending order of a column: the rows at the sorted positions.\<close>

definition sort_by :: "('k list \<Rightarrow> nat list) \<Rightarrow> ('r \<Rightarrow> 'k::linorder) \<Rightarrow> 'r list \<Rightarrow> 'r list" where
  "sort_by kind col t = map ((!) t) (argsort kind (map col t))"

text \<open>
  The routine exists once per type of value: the script sorts a column of counts (64-bit
  integers) and a column of means (floats).
\<close>

record sort_kind =
  on_int64 :: "nat list \<Rightarrow> nat list"
  on_float64 :: "rat list \<Rightarrow> nat list"

definition insertion :: sort_kind where
  "insertion = \<lparr>on_int64 = insertion_argsort, on_float64 = insertion_argsort\<rparr>"

text \<open>
  Rounding to a 64-bit float: the nearest number with 53 significant bits, the one with
  an even last bit when two are equally near. \<open>ilog2 x\<close> is the exponent \<open>e\<close> with
  \<open>2 powi e \<le> x < 2 powi (e + 1)\<close>. The range of the exponent is not bounded: the numbers
  rounded here are counts of rows, their quotients and a hundred times those, far from
  overflow and underflow.
\<close>

definition round_even :: "rat \<Rightarrow> int" where
  "round_even y =
     (let f = \<lfloor>y\<rfloor>; r = y - of_int f
      in if r < 1 / 2 then f else if 1 / 2 < r then f + 1 else if even f then f else f + 1)"

definition ilog2 :: "rat \<Rightarrow> int" where
  "ilog2 x = (if 1 \<le> x then bitlen \<lfloor>x\<rfloor> - 1 else - bitlen (\<lceil>1 / x\<rceil> - 1))"

definition binary64 :: "rat \<Rightarrow> rat" where
  "binary64 x =
     (if x = 0 then 0
      else let s = ilog2 \<bar>x\<bar> - 52 in of_int (round_even (x / 2 powi s)) * 2 powi s)"

subsection \<open>Sidebar filters (lines 50 to 78)\<close>

text \<open>
  What the three widgets return. \<open>multiselect\<close> receives the options and the default
  selection; a slider receives its lower and upper bound, which are its default
  selection as well.
\<close>

record widgets =
  multiselect :: "string list \<Rightarrow> string list \<Rightarrow> string list"
  rating_slider :: "pyfloat \<Rightarrow> pyfloat \<Rightarrow> pyfloat \<times> pyfloat"
  student_slider :: "int \<Rightarrow> int \<Rightarrow> int \<times> int"

text \<open>A user who leaves every widget as it is: each returns its default.\<close>

definition untouched :: widgets where
  "untouched =
     \<lparr>multiselect = (\<lambda>options dflt. dflt),
      rating_slider = (\<lambda>lo hi. (lo, hi)),
      student_slider = (\<lambda>lo hi. (lo, hi))\<rparr>"

text \<open>A user who selects the given values whatever the widgets offer.\<close>

definition selecting :: "string list \<Rightarrow> pyfloat \<times> pyfloat \<Rightarrow> int \<times> int \<Rightarrow> widgets" where
  "selecting subject_filter rating_range student_id_range =
     \<lparr>multiselect = (\<lambda>options dflt. subject_filter),
      rating_slider = (\<lambda>lo hi. rating_range),
      student_slider = (\<lambda>lo hi. student_id_range)\<rparr>"

text \<open>Lines 56 and 57: \<^verbatim>\<open>if subject_filter: data = data[data["Subject"].isin(subject_filter)]\<close>.\<close>

definition filter_subject :: "string list \<Rightarrow> row list \<Rightarrow> row list" where
  "filter_subject subject_filter data =
     (if subject_filter \<noteq> [] then filter (\<lambda>r. Subject r \<in> set subject_filter) data
      else data)"

text \<open>Line 68: the rating mask, inclusive at both ends.\<close>

definition filter_rating :: "pyfloat \<times> pyfloat \<Rightarrow> row list \<Rightarrow> row list" where
  "filter_rating rating_range data =
     filter (\<lambda>r. fge (Rating r) (fst rating_range) \<and> fle (Rating r) (snd rating_range)) data"

text \<open>Line 78: the student mask, inclusive at both ends.\<close>

definition filter_student :: "int \<times> int \<Rightarrow> row list \<Rightarrow> row list" where
  "filter_student student_id_range data =
     filter (\<lambda>r. fst student_id_range \<le> Student_ID r \<and> Student_ID r \<le> snd student_id_range)
       data"

text \<open>
  Lines 50 to 78 in sequence. Each widget is built from the table as narrowed so far.
  The bounds of the rating slider are floats and may be NaN; the bounds of the student
  slider go through \<^verbatim>\<open>int\<close>, which raises when the table has no rows left.
\<close>

definition sidebar_filters :: "widgets \<Rightarrow> row list \<Rightarrow> error + row list" where
  "sidebar_filters w original_data =
     (let subject_filter =
            multiselect w (sort (unique (map Subject original_data)))
              (unique (map Subject original_data));
          data1 = filter_subject subject_filter original_data;
          rating_range =
            rating_slider w (series_min (present (map Rating data1)))
              (series_max (present (map Rating data1)));
          data2 = filter_rating rating_range data1
      in case py_int (series_min (map Student_ID data2)) of
           Inl e \<Rightarrow> Inl e
         | Inr lo \<Rightarrow>
             (case py_int (series_max (map Student_ID data2)) of
                Inl e \<Rightarrow> Inl e
              | Inr hi \<Rightarrow> Inr (filter_student (student_slider w lo hi) data2)))"

text \<open>
  The masks in sequence for fixed selections: what the script returns whenever it gets
  past the widgets (lemma \<open>sidebar_filters_eq\<close> below).
\<close>

definition apply_filters ::
  "string list \<Rightarrow> pyfloat \<times> pyfloat \<Rightarrow> int \<times> int \<Rightarrow> row list \<Rightarrow> row list" where
  "apply_filters subject_filter rating_range student_id_range data =
     filter_student student_id_range
       (filter_rating rating_range (filter_subject subject_filter data))"

subsection \<open>Key metrics (lines 91 to 99)\<close>

text \<open>\<^verbatim>\<open>Series.mean()\<close> skips missing cells; the mean of nothing is NaN.\<close>

definition series_mean :: "pyfloat list \<Rightarrow> pyfloat" where
  "series_mean xs =
     (case present xs of
        [] \<Rightarrow> None
      | v # vs \<Rightarrow> Some (sum_list (v # vs) / of_nat (length (v # vs))))"

text \<open>\<^verbatim>\<open>Series.nunique()\<close>: the number of distinct values.\<close>

definition nunique :: "'a list \<Rightarrow> nat" where
  "nunique xs = length (unique xs)"

record metrics =
  Total_Feedbacks :: nat
  Avg_Rating :: pyfloat
  Unique_Subjects :: nat
  Total_Students :: nat
  Total_Comments :: nat

text \<open>
  The five values handed to \<^verbatim>\<open>metric\<close>; line 99 counts the rows whose comment is
  not missing. The delta texts of lines 91 and 94 are renderings and are left out.
\<close>

definition key_metrics :: "row list \<Rightarrow> metrics" where
  "key_metrics data =
     \<lparr>Total_Feedbacks = length data,
      Avg_Rating = series_mean (map Rating data),
      Unique_Subjects = nunique (map Subject data),
      Total_Students = nunique (map Student_ID data),
      Total_Comments = length (filter (\<lambda>r. Comment r \<noteq> None) data)\<rparr>"

subsection \<open>The tables behind the charts (lines 125 to 228)\<close>

text \<open>
  \<^verbatim>\<open>Series.value_counts()\<close>: one entry per distinct value, in order of first
  appearance, then sorted by count, largest first. pandas sorts descending by reversing,
  sorting ascending and reversing again.
\<close>

definition value_counts :: "(nat list \<Rightarrow> nat list) \<Rightarrow> 'a list \<Rightarrow> ('a \<times> nat) list" where
  "value_counts kind xs =
     rev (sort_by kind snd (rev (map (\<lambda>k. (k, count_list xs k)) (unique xs))))"

text \<open>
  \<^verbatim>\<open>DataFrame.groupby(key)\<close> with its default \<^verbatim>\<open>sort=True\<close>: one group per distinct
  key, the groups in ascending order of the key, the rows of a group in row order.
\<close>

definition groupby :: "(row \<Rightarrow> 'k::linorder) \<Rightarrow> row list \<Rightarrow> ('k \<times> row list) list" where
  "groupby key data =
     map (\<lambda>k. (k, filter (\<lambda>r. key r = k) data)) (sort (unique (map key data)))"

text \<open>
  \<^verbatim>\<open>sort_values(col)\<close>: ascending by a float column; the rows with NaN are taken
  out before sorting and put last.
\<close>

definition sort_values :: "(rat list \<Rightarrow> nat list) \<Rightarrow> ('r \<Rightarrow> pyfloat) \<Rightarrow> 'r list \<Rightarrow> 'r list" where
  "sort_values kind col t =
     sort_by kind (\<lambda>r. the (col r)) (filter (\<lambda>r. col r \<noteq> None) t)
       @ filter (\<lambda>r. col r = None) t"

text \<open>Line 125: \<^verbatim>\<open>data["Subject"].value_counts()\<close>.\<close>

definition subject_counts :: "sort_kind \<Rightarrow> row list \<Rightarrow> (string \<times> nat) list" where
  "subject_counts quicksort data = value_counts (on_int64 quicksort) (map Subject data)"

text \<open>
  Line 141: \<^verbatim>\<open>data.groupby("Subject")["Rating"].agg(['mean', 'count']).sort_values('mean')\<close>;
  \<^verbatim>\<open>count\<close> counts the ratings of the group that are not missing.
\<close>

definition subject_avg :: "sort_kind \<Rightarrow> row list \<Rightarrow> (string \<times> pyfloat \<times> nat) list" where
  "subject_avg quicksort data =
     sort_values (on_float64 quicksort) (\<lambda>r. fst (snd r))
       (map (\<lambda>(k, g). (k, series_mean (map Rating g), length (present (map Rating g))))
          (groupby Subject data))"

text \<open>Line 156: \<^verbatim>\<open>data.groupby("Student_ID")["Rating"].mean().head(20)\<close>.\<close>

definition student_avg :: "row list \<Rightarrow> (int \<times> pyfloat) list" where
  "student_avg data =
     take 20 (map (\<lambda>(k, g). (k, series_mean (map Rating g))) (groupby Student_ID data))"

text \<open>
  The pairs of subject and rating of the rows that have a rating: grouping by a pair of
  columns and cross tabulation both drop the rows with a missing key.
\<close>

definition subject_rating_keys :: "row list \<Rightarrow> (string \<times> rat) list" where
  "subject_rating_keys data = concat (map (\<lambda>r. map (Pair (Subject r)) (present [Rating r])) data)"

text \<open>
  Line 172: \<^verbatim>\<open>data.groupby(["Subject", "Rating"]).size().reset_index(name='Count')\<close>:
  one row per pair that occurs, in ascending order of the pair.
\<close>

definition subject_rating_counts :: "row list \<Rightarrow> (string \<times> rat \<times> nat) list" where
  "subject_rating_counts data =
     (let keys = subject_rating_keys data
      in map (\<lambda>k. (fst k, snd k, count_list keys k)) (sort (unique keys)))"

text \<open>Line 184: \<^verbatim>\<open>data["Subject"].value_counts().head(15)\<close>.\<close>

definition subject_counts_head :: "sort_kind \<Rightarrow> row list \<Rightarrow> (string \<times> nat) list" where
  "subject_counts_head quicksort data =
     take 15 (value_counts (on_int64 quicksort) (map Subject data))"

text \<open>
  A cell of line 203, from the count \<open>c\<close> of the cell and the sum \<open>t\<close> of its row: both
  integers become floats, the quotient is a float, and so is the product with 100.
\<close>

definition percent :: "nat \<Rightarrow> nat \<Rightarrow> rat" where
  "percent c t = binary64 (binary64 (binary64 (of_nat c) / binary64 (of_nat t)) * 100)"

text \<open>
  Line 203: \<^verbatim>\<open>pd.crosstab(data["Subject"], data["Rating"], normalize='index') * 100\<close>.
  The table has one row per subject and one column per rating that occur, both
  ascending; a cell is the number of rows with that subject and rating. Normalising by
  index divides each cell by the sum of its row, which is not zero for a row of the
  table (lemma \<open>row_total_positive\<close>). A row is given as the list of its cells, each
  with the rating of its column.
\<close>

definition rating_subject :: "row list \<Rightarrow> (string \<times> (rat \<times> rat) list) list" where
  "rating_subject data =
     (let keys = subject_rating_keys data;
          index = sort (unique (map fst keys));
          columns = sort (unique (map snd keys));
          cell = (\<lambda>s v. count_list keys (s, v));
          total = (\<lambda>s. sum_list (map (cell s) columns))
      in map (\<lambda>s. (s, map (\<lambda>v. (v, percent (cell s v) (total s))) columns)) index)"

text \<open>
  \<^verbatim>\<open>str.strip()\<close> removes white space at both ends. The white space characters of
  ASCII are the codes 9 to 13, 28 to 31 and 32; white space beyond ASCII is not modelled.
\<close>

definition isspace :: "char \<Rightarrow> bool" where
  "isspace c = (let n = (of_char c :: nat) in (9 \<le> n \<and> n \<le> 13) \<or> (28 \<le> n \<and> n \<le> 32))"

definition strip :: "string \<Rightarrow> string" where
  "strip s = rev (dropWhile isspace (rev (dropWhile isspace s)))"

text \<open>\<^verbatim>\<open>sep.join(parts)\<close>.\<close>

fun join :: "string \<Rightarrow> string list \<Rightarrow> string" where
  "join sep [] = []"
| "join sep [p] = p"
| "join sep (p # q # ps) = p @ sep @ join sep (q # ps)"

text \<open>
  Line 228: the comments that go into the word cloud are those that are not missing and
  not blank after stripping.
\<close>

definition wordcloud_comments :: "row list \<Rightarrow> string list" where
  "wordcloud_comments data = filter (\<lambda>c. strip c \<noteq> []) (present (map Comment data))"

definition comments_text :: "row list \<Rightarrow> string" where
  "comments_text data = join '' '' (wordcloud_comments data)"

subsection \<open>The script as a whole\<close>

record tables =
  Subject_Distribution :: "(string \<times> nat) list"
  Subject_wise_Average_Rating :: "(string \<times> pyfloat \<times> nat) list"
  Rating_Across_Students :: "(int \<times> pyfloat) list"
  Rating_Count_by_Subject :: "(string \<times> rat \<times> nat) list"
  Feedback_Count_by_Subject :: "(string \<times> nat) list"
  Rating_Distribution_by_Subject :: "(string \<times> (rat \<times> rat) list) list"
  Comment_Analysis :: string

definition chart_tables :: "sort_kind \<Rightarrow> row list \<Rightarrow> tables" where
  "chart_tables quicksort data =
     \<lparr>Subject_Distribution = subject_counts quicksort data,
      Subject_wise_Average_Rating = subject_avg quicksort data,
      Rating_Across_Students = student_avg data,
      Rating_Count_by_Subject = subject_rating_counts data,
      Feedback_Count_by_Subject = subject_counts_head quicksort data,
      Rating_Distribution_by_Subject = rating_subject data,
      Comment_Analysis = comments_text data\<rparr>"

text \<open>
  The script runs the filters, then the metrics, then the charts, then shows the
  narrowed table; an exception in the sidebar ends the run before anything is computed.
\<close>

definition dashboard ::
  "sort_kind \<Rightarrow> widgets \<Rightarrow> row list \<Rightarrow> error + (row list \<times> metrics \<times> tables)" where
  "dashboard quicksort w original_data =
     (case sidebar_filters w original_data of
        Inl e \<Rightarrow> Inl e
      | Inr data \<Rightarrow> Inr (data, key_metrics data, chart_tables quicksort data))"

text \<open>The key metrics the script shows for a table and a user, if it gets that far.\<close>

definition shown_metrics :: "widgets \<Rightarrow> row list \<Rightarrow> error + metrics" where
  "shown_metrics w original_data =
     (case sidebar_filters w original_data of
        Inl e \<Rightarrow> Inl e
      | Inr data \<Rightarrow> Inr (key_metrics data))"

subsection \<open>Orders the specification describes\<close>

text \<open>
  Following the specification's words, for comparison with \<open>student_avg\<close>: the
  per-student averages with the groups in the order in which their keys first occur.
\<close>

definition student_avg_first_seen :: "row list \<Rightarrow> (int \<times> pyfloat) list" where
  "student_avg_first_seen data =
     take 20 (map (\<lambda>k. (k, series_mean (map Rating (filter (\<lambda>r. Student_ID r = k) data))))
        (unique (map Student_ID data)))"

text \<open>
  Following the specification's words, for comparison with \<open>subject_counts\<close>: a table
  of counts is in descending order of the count, entries of equal count in ascending
  order of the subject name.
\<close>

definition by_count_then_name :: "(string \<times> nat) list \<Rightarrow> bool" where
  "by_count_then_name t =
     sorted_wrt (\<lambda>a b. snd b < snd a \<or> (snd a = snd b \<and> fst a < fst b)) t"

subsection \<open>Example tables\<close>

definition row_math_4 :: row where
  "row_math_4 =
     \<lparr>Student_ID = 2, Subject = ''Math'', Rating = Some 4, Comment = Some ''good''\<rparr>"

definition row_math_5 :: row where
  "row_math_5 = \<lparr>Student_ID = 1, Subject = ''Math'', Rating = Some 5, Comment = None\<rparr>"

definition row_art_3 :: row where
  "row_art_3 = \<lparr>Student_ID = 3, Subject = ''Art'', Rating = Some 3, Comment = Some ''ok''\<rparr>"

definition row_unrated :: row where
  "row_unrated = \<lparr>Student_ID = 4, Subject = ''Art'', Rating = None, Comment = None\<rparr>"

definition row_blank :: row where
  "row_blank = \<lparr>Student_ID = 5, Subject = ''Math'', Rating = Some 4, Comment = Some ''  ''\<rparr>"

definition row_math_1 :: row where
  "row_math_1 = \<lparr>Student_ID = 6, Subject = ''Math'', Rating = Some 1, Comment = None\<rparr>"

definition row_of :: "int \<Rightarrow> string \<Rightarrow> row" where
  "row_of i s = \<lparr>Student_ID = i, Subject = s, Rating = Some 4, Comment = None\<rparr>"

definition many_students :: "row list" where
  "many_students =
     map (\<lambda>i. row_of i ''Math'')
       [22, 21, 20, 19, 18, 17, 16, 15, 14, 13, 12, 11, 10, 9, 8, 7, 6, 5, 4, 3, 2, 1]"

definition sixteen_subjects :: "row list" where
  "sixteen_subjects =
     map (row_of 1)
       [''Algebra'', ''Biology'', ''Chemistry'', ''Drama'', ''Economics'', ''French'',
        ''Geography'', ''History'', ''Italian'', ''Japanese'', ''Kinetics'', ''Latin'',
        ''Music'', ''Nursing'', ''Optics'', ''Physics'', ''Physics'']"

section \<open>Properties\<close>

subsection \<open>Auxiliary facts\<close>

lemma filter_subject_subseq: "subseq (filter_subject sf R) R"
  by (simp add: filter_subject_def)

lemma filter_rating_subseq: "subseq (filter_rating rr R) R"
  by (simp add: filter_rating_def)

lemma filter_student_subseq: "subseq (filter_student sr R) R"
  by (simp add: filter_student_def)

lemma series_min_None: "series_min xs = None \<longleftrightarrow> xs = []"
  by (simp add: series_min_def split: list.splits)

lemma series_max_None: "series_max xs = None \<longleftrightarrow> xs = []"
  by (simp add: series_max_def split: list.splits)

lemma py_int_series_min:
  "py_int (series_min xs) = (if xs = [] then Inl ValueError else Inr (the (series_min xs)))"
  by (cases xs) (simp_all add: py_int_def series_min_def)

lemma py_int_series_max:
  "py_int (series_max xs) = (if xs = [] then Inl ValueError else Inr (the (series_max xs)))"
  by (cases xs) (simp_all add: py_int_def series_max_def)

text \<open>
  The script returns the three masks applied in sequence, unless the table is empty
  when the student slider is built.
\<close>

lemma sidebar_filters_eq:
  "sidebar_filters w R =
     (let d1 = filter_subject
                 (multiselect w (sort (unique (map Subject R))) (unique (map Subject R))) R;
          d2 = filter_rating
                 (rating_slider w (series_min (present (map Rating d1)))
                    (series_max (present (map Rating d1)))) d1
      in if d2 = [] then Inl ValueError
         else Inr (filter_student
                     (student_slider w (the (series_min (map Student_ID d2)))
                        (the (series_max (map Student_ID d2)))) d2))"
  by (simp add: sidebar_filters_def Let_def py_int_series_min py_int_series_max)

lemma set_unique: "set (unique xs) = set xs"
  by (induction xs rule: unique.induct) auto

lemma distinct_unique: "distinct (unique xs)"
  by (induction xs rule: unique.induct) (auto simp: set_unique)

lemma apply_filters_conj:
  "apply_filters sf rr sr R =
     filter (\<lambda>r. (sf = [] \<or> Subject r \<in> set sf)
        \<and> fge (Rating r) (fst rr) \<and> fle (Rating r) (snd rr)
        \<and> fst sr \<le> Student_ID r \<and> Student_ID r \<le> snd sr) R"
  by (auto simp: apply_filters_def filter_subject_def filter_rating_def filter_student_def
      intro: filter_cong)

lemma sidebar_filters_cases:
  "sidebar_filters w R = Inl ValueError
   \<or> (\<exists>sf rr sr. sidebar_filters w R = Inr (apply_filters sf rr sr R))"
proof -
  define sf where "sf = multiselect w (sort (unique (map Subject R))) (unique (map Subject R))"
  define d1 where "d1 = filter_subject sf R"
  define rr where
    "rr = rating_slider w (series_min (present (map Rating d1)))
            (series_max (present (map Rating d1)))"
  define d2 where "d2 = filter_rating rr d1"
  define sr where
    "sr = student_slider w (the (series_min (map Student_ID d2)))
            (the (series_max (map Student_ID d2)))"
  have "sidebar_filters w R =
          (if d2 = [] then Inl ValueError else Inr (apply_filters sf rr sr R))"
    by (simp add: sidebar_filters_eq Let_def apply_filters_def sf_def d1_def rr_def d2_def
        sr_def)
  then show ?thesis
    by metis
qed

lemma filter_subject_unique: "filter_subject (unique (map Subject R)) R = R"
  by (auto simp: filter_subject_def set_unique)

lemma series_min_le:
  assumes "x \<in> set xs"
  shows "\<exists>m. series_min xs = Some m \<and> m \<le> x"
proof (cases xs)
  case Nil
  with assms show ?thesis by simp
next
  case (Cons v vs)
  have "fold min vs v = Min (set (v # vs))"
    by (simp only: Min.set_eq_fold)
  moreover have "Min (set xs) \<le> x"
    using assms by simp
  ultimately show ?thesis
    by (simp add: series_min_def Cons)
qed

lemma series_max_ge:
  assumes "x \<in> set xs"
  shows "\<exists>m. series_max xs = Some m \<and> x \<le> m"
proof (cases xs)
  case Nil
  with assms show ?thesis by simp
next
  case (Cons v vs)
  have "fold max vs v = Max (set (v # vs))"
    by (simp only: Max.set_eq_fold)
  moreover have "x \<le> Max (set xs)"
    using assms by simp
  ultimately show ?thesis
    by (simp add: series_max_def Cons)
qed

lemma set_present: "set (present xs) = {v. Some v \<in> set xs}"
  by (induction xs rule: present.induct) auto

lemma filter_rating_full:
  "filter_rating (series_min (present (map Rating R)), series_max (present (map Rating R))) R
     = filter (\<lambda>r. Rating r \<noteq> None) R"
proof -
  have "fge (Rating r) (series_min (present (map Rating R)))
        \<and> fle (Rating r) (series_max (present (map Rating R))) \<longleftrightarrow> Rating r \<noteq> None"
    if "r \<in> set R" for r
  proof (cases "Rating r")
    case None
    then show ?thesis by (simp add: fge_def)
  next
    case (Some x)
    with that have "x \<in> set (present (map Rating R))"
      by (force simp: set_present)
    from series_min_le [OF this] series_max_ge [OF this] Some
    show ?thesis by (auto simp: fge_def)
  qed
  then show ?thesis
    by (simp add: filter_rating_def cong: filter_cong)
qed

lemma filter_student_full:
  "filter_student (the (series_min (map Student_ID R)), the (series_max (map Student_ID R))) R = R"
proof -
  have "the (series_min (map Student_ID R)) \<le> Student_ID r
        \<and> Student_ID r \<le> the (series_max (map Student_ID R))"
    if "r \<in> set R" for r
  proof -
    from that have "Student_ID r \<in> set (map Student_ID R)" by simp
    from series_min_le [OF this] series_max_ge [OF this]
    show ?thesis by auto
  qed
  then show ?thesis
    unfolding filter_student_def by (simp add: filter_id_conv)
qed

lemma present_rated:
  "present (map Rating (filter (\<lambda>r. Rating r \<noteq> None) R)) = present (map Rating R)"
proof (induction R)
  case Nil
  show ?case by simp
next
  case (Cons r R)
  then show ?case by (cases "Rating r") simp_all
qed

lemma sidebar_filters_untouched:
  "sidebar_filters untouched R =
     (if filter (\<lambda>r. Rating r \<noteq> None) R = [] then Inl ValueError
      else Inr (filter (\<lambda>r. Rating r \<noteq> None) R))"
  by (simp add: sidebar_filters_eq untouched_def Let_def filter_subject_unique
      filter_rating_full filter_student_full)

lemma map_fst_groupby: "map fst (groupby key data) = sort (unique (map key data))"
  by (simp add: groupby_def comp_def)

lemma map_fst_student_avg: "map fst (student_avg R) = take 20 (sort (unique (map Student_ID R)))"
  by (simp add: student_avg_def take_map map_fst_groupby [symmetric] comp_def case_prod_unfold)

lemma student_avg_entry:
  assumes "e \<in> set (student_avg R)"
  shows "fst e \<in> Student_ID ` set R
         \<and> snd e = series_mean (map Rating (filter (\<lambda>r. Student_ID r = fst e) R))"
proof -
  from assms have "e \<in> set (map (\<lambda>(k, g). (k, series_mean (map Rating g))) (groupby Student_ID R))"
    unfolding student_avg_def by (rule in_set_takeD)
  then show ?thesis
    by (auto simp: groupby_def set_unique)
qed

lemma sorted_take_drop_less:
  assumes "sorted ks" and "distinct ks" and "a \<in> set (take n ks)" and "b \<in> set (drop n ks)"
  shows "a < (b::'a::linorder)"
proof -
  have ks: "ks = take n ks @ drop n ks" by simp
  from assms(1) have "sorted (take n ks @ drop n ks)" by simp
  with assms(3,4) have "a \<le> b"
    unfolding sorted_append by blast
  moreover from assms(2) have "distinct (take n ks @ drop n ks)" by simp
  with assms(3,4) have "a \<noteq> b"
    unfolding distinct_append by blast
  ultimately show ?thesis by simp
qed

lemma is_argsort_iff:
  "is_argsort keys idx \<longleftrightarrow>
     distinct idx \<and> set idx = {0..<length keys} \<and> sorted (map ((!) keys) idx)"
proof -
  have "sort idx = [0..<length keys] \<longleftrightarrow> distinct idx \<and> set idx = {0..<length keys}"
  proof
    assume "sort idx = [0..<length keys]"
    then have "distinct (sort idx)" and "set (sort idx) = {0..<length keys}"
      by simp_all
    then show "distinct idx \<and> set idx = {0..<length keys}"
      by simp
  next
    assume "distinct idx \<and> set idx = {0..<length keys}"
    then show "sort idx = [0..<length keys]"
      by (intro sorted_distinct_set_unique) simp_all
  qed
  then show ?thesis
    by (simp add: is_argsort_def)
qed

lemma is_argsort_insertion: "is_argsort keys (insertion_argsort keys)"
proof -
  define zs where "zs = sort_key fst (zip keys [0..<length keys])"
  have set: "set zs = set (zip keys [0..<length keys])"
    by (simp add: zs_def)
  have el: "keys ! snd z = fst z" if "z \<in> set zs" for z
    using that unfolding set by (auto simp: set_zip)
  have "distinct (zip keys [0..<length keys])"
    by (simp add: distinct_zipI2)
  then have "distinct zs"
    by (simp add: zs_def)
  moreover have "inj_on snd (set zs)"
    unfolding set by (auto simp: inj_on_def set_zip)
  ultimately have 1: "distinct (map snd zs)"
    by (simp add: distinct_map)
  have "map snd (zip keys [0..<length keys]) = [0..<length keys]"
    by (rule map_snd_zip) simp
  then have "snd ` set (zip keys [0..<length keys]) = set [0..<length keys]"
    by (metis set_map)
  then have 2: "set (map snd zs) = {0..<length keys}"
    by (simp add: set)
  have "map ((!) keys) (map snd zs) = map fst zs"
    using el by simp
  moreover have "sorted (map fst zs)"
    by (simp add: zs_def)
  ultimately have 3: "sorted (map ((!) keys) (map snd zs))"
    by (simp only:)
  from 1 2 3 show ?thesis
    unfolding is_argsort_iff insertion_argsort_def zs_def [symmetric] by simp
qed

lemma is_argsort_argsort: "is_argsort keys (argsort kind keys)"
  by (simp add: argsort_def is_argsort_insertion)

lemma argsort_Nil: "argsort kind [] = []"
  using is_argsort_argsort [of "[]" kind] by (simp add: is_argsort_iff)

lemma sort_by_Nil: "sort_by kind col [] = []"
  by (simp add: sort_by_def argsort_Nil)

lemma set_sort_by: "set (sort_by kind col t) = set t"
proof -
  from is_argsort_argsort [of "map col t" kind]
  have "set (argsort kind (map col t)) = {0..<length t}"
    by (simp add: is_argsort_iff)
  then have "set (sort_by kind col t) = (!) t ` {0..<length t}"
    by (simp add: sort_by_def)
  also have "\<dots> = set t"
    by (auto simp: set_conv_nth)
  finally show ?thesis .
qed

lemma length_sort_by: "length (sort_by kind col t) = length t"
proof -
  from is_argsort_argsort [of "map col t" kind]
  have "distinct (argsort kind (map col t))" and "set (argsort kind (map col t)) = {0..<length t}"
    by (simp_all add: is_argsort_iff)
  then have "length (argsort kind (map col t)) = card {0..<length t}"
    by (metis distinct_card)
  then show ?thesis
    by (simp add: sort_by_def)
qed

lemma distinct_map_sort_by:
  assumes "distinct (map f t)"
  shows "distinct (map f (sort_by kind col t))"
proof -
  from is_argsort_argsort [of "map col t" kind]
  have d: "distinct (argsort kind (map col t))" and s: "set (argsort kind (map col t)) = {0..<length t}"
    by (simp_all add: is_argsort_iff)
  have "inj_on (\<lambda>i. f (t ! i)) {0..<length t}"
  proof (rule inj_onI)
    fix i j
    assume "i \<in> {0..<length t}" and "j \<in> {0..<length t}" and "f (t ! i) = f (t ! j)"
    then have "map f t ! i = map f t ! j" and "i < length (map f t)" and "j < length (map f t)"
      by simp_all
    with assms show "i = j"
      by (simp only: nth_eq_iff_index_eq)
  qed
  with d s show ?thesis
    by (simp add: sort_by_def distinct_map comp_def)
qed

lemma sorted_sort_by: "sorted (map col (sort_by kind col t))"
proof -
  from is_argsort_argsort [of "map col t" kind]
  have s: "set (argsort kind (map col t)) = {0..<length t}"
    and o: "sorted (map ((!) (map col t)) (argsort kind (map col t)))"
    by (simp_all add: is_argsort_iff)
  have "map col (sort_by kind col t) = map ((!) (map col t)) (argsort kind (map col t))"
    using s by (simp add: sort_by_def)
  with o show ?thesis by simp
qed

text \<open>With insertion sort the rows come out as from a stable sort.\<close>

lemma map_insort_key:
  assumes "g (f z) = h z" and "\<forall>y \<in> set ys. g (f y) = h y"
  shows "map f (insort_key h z ys) = insort_key g (f z) (map f ys)"
  using assms by (induction ys) simp_all

lemma map_sort_key:
  assumes "\<forall>z \<in> set zs. g (f z) = h z"
  shows "map f (sort_key h zs) = sort_key g (map f zs)"
  using assms
proof (induction zs)
  case Nil
  show ?case by simp
next
  case (Cons z zs)
  then have "map f (sort_key h zs) = sort_key g (map f zs)"
    by simp
  moreover from Cons.prems
  have "map f (insort_key h z (sort_key h zs)) = insort_key g (f z) (map f (sort_key h zs))"
    by (intro map_insort_key) simp_all
  ultimately show ?case
    by simp
qed

lemma sort_by_insertion: "sort_by insertion_argsort col t = sort_key col t"
proof -
  define zs where "zs = zip (map col t) [0..<length t]"
  have "\<forall>z \<in> set zs. col (t ! snd z) = fst z"
    by (auto simp: zs_def set_zip)
  then have "map (\<lambda>z. t ! snd z) (sort_key fst zs) = sort_key col (map (\<lambda>z. t ! snd z) zs)"
    by (rule map_sort_key)
  moreover have "map (\<lambda>z. t ! snd z) zs = map ((!) t) (map snd zs)"
    by simp
  moreover have "map snd zs = [0..<length t]"
    unfolding zs_def by (rule map_snd_zip) simp
  ultimately have "map (\<lambda>z. t ! snd z) (sort_key fst zs) = sort_key col t"
    by (simp add: map_nth)
  then show ?thesis
    by (simp add: sort_by_def argsort_def is_argsort_insertion insertion_argsort_def zs_def
        comp_def)
qed

lemma value_counts_insertion:
  "value_counts insertion_argsort xs
     = rev (sort_key snd (rev (map (\<lambda>k. (k, count_list xs k)) (unique xs))))"
  by (simp add: value_counts_def sort_by_insertion)

lemma argsort_pair: "argsort kind [a, b] = [0, 1] \<or> argsort kind [a, b] = [1, 0]"
proof -
  define p where "p = argsort kind [a, b]"
  from is_argsort_argsort [of "[a, b]" kind]
  have d: "distinct p" and s: "set p = {0, 1}"
    by (auto simp: is_argsort_iff p_def)
  then have "length p = 2"
    by (metis card_2_iff distinct_card zero_neq_one)
  then obtain x y where "p = [x, y]"
    by (auto simp: length_Suc_conv numeral_2_eq_2)
  with d s have "p = [0, 1] \<or> p = [1, 0]"
    by (auto simp: doubleton_eq_iff)
  then show ?thesis
    by (simp only: p_def)
qed

lemma set_value_counts: "set (value_counts kind xs) = (\<lambda>k. (k, count_list xs k)) ` set xs"
  by (simp add: value_counts_def set_sort_by set_unique)

lemma map_fst_value_counts_distinct: "distinct (map fst (value_counts kind xs))"
proof -
  define t where "t = rev (map (\<lambda>k. (k, count_list xs k)) (unique xs))"
  have "map fst t = rev (unique xs)"
    by (simp add: t_def rev_map comp_def)
  then have "distinct (map fst t)"
    by (simp add: distinct_unique)
  then have "distinct (map fst (sort_by kind snd t))"
    by (rule distinct_map_sort_by)
  then have "distinct (rev (map fst (sort_by kind snd t)))"
    by simp
  then show ?thesis
    by (simp only: value_counts_def t_def rev_map)
qed

lemma length_value_counts: "length (value_counts kind xs) = card (set xs)"
  by (simp add: value_counts_def length_sort_by)
    (metis distinct_card distinct_unique set_unique)

lemma value_counts_descending: "sorted (rev (map snd (value_counts kind xs)))"
proof -
  define t where "t = rev (map (\<lambda>k. (k, count_list xs k)) (unique xs))"
  have "rev (map snd (value_counts kind xs)) = map snd (sort_by kind snd t)"
    by (simp add: value_counts_def t_def rev_map)
  then show ?thesis
    by (simp only: sorted_sort_by)
qed

text \<open>
  A sorting routine sees the counts and not the names: it arranges the two entries of a
  table with one Math row and one Art row in the same way whichever row comes first, so
  one of the two tables of counts is not in ascending order of the names.
\<close>

lemma ties_not_by_name_any_routine:
  "\<not> (by_count_then_name (subject_counts quicksort [row_math_4, row_art_3])
      \<and> by_count_then_name (subject_counts quicksort [row_art_3, row_math_4]))"
proof -
  have ma: "subject_counts quicksort [row_math_4, row_art_3]
      = rev (map ((!) [(''Art'', 1), (''Math'', 1)]) (argsort (on_int64 quicksort) [1, 1]))"
    by (simp add: subject_counts_def value_counts_def sort_by_def row_math_4_def row_art_3_def)
  have am: "subject_counts quicksort [row_art_3, row_math_4]
      = rev (map ((!) [(''Math'', 1), (''Art'', 1)]) (argsort (on_int64 quicksort) [1, 1]))"
    by (simp add: subject_counts_def value_counts_def sort_by_def row_math_4_def row_art_3_def)
  from argsort_pair [of "on_int64 quicksort" 1 1] show ?thesis
    by (auto simp: ma am by_count_then_name_def)
qed

lemma descending_take_drop:
  assumes "sorted (rev (map f xs))" and "a \<in> set (take n xs)" and "b \<in> set (drop n xs)"
  shows "f b \<le> (f a :: 'b::linorder)"
proof -
  have "rev (map f xs) = rev (map f (drop n xs)) @ rev (map f (take n xs))"
    by (metis append_take_drop_id map_append rev_append)
  with assms(1) have "\<forall>x \<in> set (rev (map f (drop n xs))). \<forall>y \<in> set (rev (map f (take n xs))). x \<le> y"
    by (simp add: sorted_append)
  with assms(2,3) show ?thesis by simp
qed

lemma set_subject_rating_keys:
  "set (subject_rating_keys data) = {(Subject r, v) | r v. r \<in> set data \<and> Rating r = Some v}"
proof -
  have "set (present [x]) = {v. x = Some v}" for x :: "rat option"
    by (cases x) auto
  then show ?thesis
    by (auto simp: subject_rating_keys_def)
qed

lemma round_even_error: "\<bar>of_int (round_even y) - y\<bar> \<le> 1 / 2"
proof -
  have "of_int \<lfloor>y\<rfloor> \<le> y" and "y < of_int \<lfloor>y\<rfloor> + 1"
    by linarith+
  then show ?thesis
    by (auto simp: round_even_def Let_def)
qed

lemma ilog2_bounds:
  assumes "0 < x"
  shows "2 powi ilog2 x \<le> x" and "x < 2 powi (ilog2 x + 1)"
proof -
  have "2 powi ilog2 x \<le> x \<and> x < 2 powi (ilog2 x + 1)"
  proof (cases "1 \<le> x")
    case True
    define n where "n = \<lfloor>x\<rfloor>"
    from True have n: "0 < n" by (simp add: n_def)
    have nx: "of_int n \<le> x" "x < of_int n + 1"
      unfolding n_def by linarith+
    from n have b1: "1 \<le> bitlen n"
      using bitlen_eq_zero_iff [of n] bitlen_nonneg [of n] by linarith
    from bitlen_bounds [OF n] have lo: "2 ^ nat (bitlen n - 1) \<le> n" and hi: "n < 2 ^ nat (bitlen n)"
      by simp_all
    from lo have "(of_int (2 ^ nat (bitlen n - 1)) :: rat) \<le> of_int n"
      by (simp only: of_int_le_iff)
    then have lo': "(2::rat) ^ nat (bitlen n - 1) \<le> of_int n" by simp
    from hi have "n + 1 \<le> 2 ^ nat (bitlen n)" by simp
    then have "(of_int (n + 1) :: rat) \<le> of_int (2 ^ nat (bitlen n))"
      by (simp only: of_int_le_iff)
    then have hi': "of_int n + 1 \<le> (2::rat) ^ nat (bitlen n)" by simp
    have e: "ilog2 x = bitlen n - 1"
      using True by (simp add: ilog2_def n_def)
    from b1 have p1: "(2::rat) powi (bitlen n - 1) = 2 ^ nat (bitlen n - 1)"
      by (simp add: power_int_def)
    from b1 have p2: "(2::rat) powi (bitlen n - 1 + 1) = 2 ^ nat (bitlen n)"
      by (simp add: power_int_def)
    from lo' nx(1) have "(2::rat) ^ nat (bitlen n - 1) \<le> x" by (rule order_trans)
    moreover from nx(2) hi' have "x < (2::rat) ^ nat (bitlen n)" by (rule less_le_trans)
    ultimately show ?thesis
      unfolding e p1 p2 by (rule conjI)
  next
    case False
    with assms have x1: "x < 1" by simp
    define m where "m = \<lceil>1 / x\<rceil>"
    from assms x1 have "1 < 1 / x" by simp
    then have m2: "2 \<le> m" unfolding m_def by linarith
    have mx: "1 / x \<le> of_int m" "of_int m - 1 < 1 / x"
      unfolding m_def by linarith+
    define k where "k = bitlen (m - 1)"
    from m2 have pos: "0 < m - 1" by simp
    then have k1: "1 \<le> k"
      using bitlen_eq_zero_iff [of "m - 1"] bitlen_nonneg [of "m - 1"] unfolding k_def by linarith
    from bitlen_bounds [OF pos] have lo: "2 ^ nat (k - 1) \<le> m - 1" and hi: "m - 1 < 2 ^ nat k"
      by (simp_all add: k_def)
    from lo have "(of_int (2 ^ nat (k - 1)) :: rat) \<le> of_int (m - 1)"
      by (simp only: of_int_le_iff)
    then have lo': "(2::rat) ^ nat (k - 1) \<le> of_int m - 1" by simp
    from hi have "m \<le> 2 ^ nat k" by simp
    then have "(of_int m :: rat) \<le> of_int (2 ^ nat k)"
      by (simp only: of_int_le_iff)
    then have hi': "of_int m \<le> (2::rat) ^ nat k" by simp
    have e: "ilog2 x = - k"
      using False by (simp add: ilog2_def m_def k_def)
    from hi' mx(1) have "1 / x \<le> 2 ^ nat k" by linarith
    with assms have a: "1 / 2 ^ nat k \<le> x"
      by (simp add: field_simps)
    from lo' mx(2) have "2 ^ nat (k - 1) < 1 / x" by linarith
    with assms have b: "x < 1 / 2 ^ nat (k - 1)"
      by (simp add: field_simps)
    from k1 have p1: "(2::rat) powi (- k) = 1 / 2 ^ nat k"
      by (simp add: power_int_def field_simps)
    from k1 have p2: "(2::rat) powi (- k + 1) = 1 / 2 ^ nat (k - 1)"
      by (simp add: power_int_def field_simps nat_diff_distrib)
    from a b show ?thesis
      unfolding e p1 p2 by (rule conjI)
  qed
  then show "2 powi ilog2 x \<le> x" and "x < 2 powi (ilog2 x + 1)" by simp_all
qed

lemma binary64_error: "\<bar>binary64 x - x\<bar> \<le> \<bar>x\<bar> / 2 ^ 53"
proof (cases "x = 0")
  case True
  then show ?thesis by (simp add: binary64_def)
next
  case False
  define s where "s = ilog2 \<bar>x\<bar> - 52"
  define P :: rat where "P = 2 powi s"
  have P: "0 < P" by (simp add: P_def)
  from False have "2 powi ilog2 \<bar>x\<bar> \<le> \<bar>x\<bar>"
    by (intro ilog2_bounds) simp
  moreover have "(2::rat) powi ilog2 \<bar>x\<bar> = P * 2 ^ 52"
    unfolding P_def s_def by (simp add: power_int_diff)
  ultimately have Px: "P * 2 ^ 52 \<le> \<bar>x\<bar>" by simp
  have fl: "binary64 x = of_int (round_even (x / P)) * P"
    using False by (simp add: binary64_def Let_def s_def P_def)
  have "binary64 x - x = (of_int (round_even (x / P)) - x / P) * P"
    unfolding fl using P by (simp add: field_simps)
  then have "\<bar>binary64 x - x\<bar> = \<bar>of_int (round_even (x / P)) - x / P\<bar> * P"
    using P by (simp add: abs_mult)
  also have "\<dots> \<le> 1 / 2 * P"
    using round_even_error [of "x / P"] P by (intro mult_right_mono) simp_all
  also have "\<dots> \<le> \<bar>x\<bar> / 2 ^ 53"
    using Px by simp
  finally show ?thesis .
qed


lemma relative_error_bounds:
  fixes x y e :: rat
  assumes "\<bar>y - x\<bar> \<le> x * e"
  shows "(1 - e) * x \<le> y" and "y \<le> (1 + e) * x"
  using assms by (simp_all add: abs_le_iff algebra_simps)

lemma binary64_bounds:
  assumes "0 \<le> x"
  shows "(1 - 1 / 2 ^ 53) * x \<le> binary64 x" and "binary64 x \<le> (1 + 1 / 2 ^ 53) * x"
proof -
  from binary64_error [of x] assms have "\<bar>binary64 x - x\<bar> \<le> x * (1 / 2 ^ 53)"
    by simp
  then show "(1 - 1 / 2 ^ 53) * x \<le> binary64 x" and "binary64 x \<le> (1 + 1 / 2 ^ 53) * x"
    by (rule relative_error_bounds)+
qed

lemma within_tolerance:
  fixes s l h c d :: rat
  assumes "l \<le> s" and "s \<le> h" and "c - d \<le> l" and "h \<le> c + d"
  shows "\<bar>s - c\<bar> \<le> d"
  using assms by linarith

lemma percent_bounds:
  assumes "0 < t"
  shows "(1 - 1 / 2 ^ 53) ^ 3 / (1 + 1 / 2 ^ 53) * (of_nat c / of_nat t * 100) \<le> percent c t"
    and "percent c t \<le> (1 + 1 / 2 ^ 53) ^ 3 / (1 - 1 / 2 ^ 53) * (of_nat c / of_nat t * 100)"
proof -
  define u :: rat where "u = 1 / 2 ^ 53"
  have u: "0 < 1 - u" "0 < 1 + u" "0 \<le> u"
    by (simp_all add: u_def)
  define a where "a = binary64 (of_nat c)"
  define b where "b = binary64 (of_nat t)"
  define q where "q = binary64 (a / b)"
  have a: "(1 - u) * of_nat c \<le> a" "a \<le> (1 + u) * of_nat c"
    unfolding a_def u_def by (rule binary64_bounds, simp)+
  have b: "(1 - u) * of_nat t \<le> b" "b \<le> (1 + u) * of_nat t"
    unfolding b_def u_def by (rule binary64_bounds, simp)+
  from assms u have t: "0 < (1 - u) * of_nat t" "0 < (1 + u) * of_nat t"
    by simp_all
  with b have b0: "0 < b" by linarith
  from u have c0: "0 \<le> (1 - u) * of_nat c" and c1: "0 \<le> (1 + u) * of_nat c"
    by simp_all
  with a have a0: "0 \<le> a" by linarith
  from a0 b0 have r0: "0 \<le> a / b" by simp
  have r_lo: "(1 - u) * of_nat c / ((1 + u) * of_nat t) \<le> a / b"
    using a0 a(1) b0 b(2) by (rule frac_le)
  have r_hi: "a / b \<le> (1 + u) * of_nat c / ((1 - u) * of_nat t)"
    using c1 a(2) t(1) b(1) by (rule frac_le)
  have q: "(1 - u) * (a / b) \<le> q" "q \<le> (1 + u) * (a / b)"
    unfolding q_def u_def using r0 by (rule binary64_bounds)+
  from u r0 have "0 \<le> (1 - u) * (a / b)" by (intro mult_nonneg_nonneg) simp_all
  with q have q0: "0 \<le> q * 100" by linarith
  have p: "(1 - u) * (q * 100) \<le> percent c t" "percent c t \<le> (1 + u) * (q * 100)"
    unfolding percent_def a_def [symmetric] b_def [symmetric] q_def [symmetric] u_def
    using q0 by (rule binary64_bounds)+
  have "(1 - u) ^ 3 / (1 + u) * (of_nat c / of_nat t * 100)
          = (1 - u) * ((1 - u) * ((1 - u) * of_nat c / ((1 + u) * of_nat t)) * 100)"
    by (simp add: power3_eq_cube)
  also have "\<dots> \<le> (1 - u) * ((1 - u) * (a / b) * 100)"
    using r_lo u by (intro mult_left_mono mult_right_mono) simp_all
  also have "\<dots> \<le> (1 - u) * (q * 100)"
    using q(1) u by (intro mult_left_mono mult_right_mono) simp_all
  also note p(1)
  finally show "(1 - 1 / 2 ^ 53) ^ 3 / (1 + 1 / 2 ^ 53) * (of_nat c / of_nat t * 100) \<le> percent c t"
    unfolding u_def .
  note p(2)
  also have "(1 + u) * (q * 100) \<le> (1 + u) * ((1 + u) * (a / b) * 100)"
    using q(2) u by (intro mult_left_mono mult_right_mono) simp_all
  also have "\<dots> \<le> (1 + u) * ((1 + u) * ((1 + u) * of_nat c / ((1 - u) * of_nat t)) * 100)"
    using r_hi u by (intro mult_left_mono mult_right_mono) simp_all
  also have "\<dots> = (1 + u) ^ 3 / (1 - u) * (of_nat c / of_nat t * 100)"
    by (simp add: power3_eq_cube)
  finally show "percent c t \<le> (1 + 1 / 2 ^ 53) ^ 3 / (1 - 1 / 2 ^ 53) * (of_nat c / of_nat t * 100)"
    unfolding u_def .
qed

lemma sum_list_percent_bounds:
  assumes "0 < t"
  shows "(1 - 1 / 2 ^ 53) ^ 3 / (1 + 1 / 2 ^ 53) * (of_nat (sum_list (map f vs)) / of_nat t * 100)
           \<le> sum_list (map (\<lambda>v. percent (f v) t) vs)
         \<and> sum_list (map (\<lambda>v. percent (f v) t) vs)
           \<le> (1 + 1 / 2 ^ 53) ^ 3 / (1 - 1 / 2 ^ 53) * (of_nat (sum_list (map f vs)) / of_nat t * 100)"
proof (induction vs)
  case Nil
  show ?case by simp
next
  case (Cons v vs)
  from percent_bounds [OF assms, of "f v"] Cons show ?case
    by (simp add: algebra_simps add_divide_distrib)
qed

lemma row_sum_close:
  assumes "0 < sum_list (map f vs)"
  shows "\<bar>sum_list (map (\<lambda>v. percent (f v) (sum_list (map f vs))) vs) - 100\<bar> \<le> 1 / 10 ^ 13"
proof -
  define t where "t = sum_list (map f vs)"
  from assms have t: "0 < t" by (simp only: t_def)
  then have "(of_nat t :: rat) / of_nat t * 100 = 100"
    by simp
  with sum_list_percent_bounds [OF t, of f vs]
  have "(1 - 1 / 2 ^ 53) ^ 3 / (1 + 1 / 2 ^ 53) * 100
           \<le> sum_list (map (\<lambda>v. percent (f v) (sum_list (map f vs))) vs)"
    and "sum_list (map (\<lambda>v. percent (f v) (sum_list (map f vs))) vs)
           \<le> (1 + 1 / 2 ^ 53) ^ 3 / (1 - 1 / 2 ^ 53) * 100"
    by (simp_all only: t_def [symmetric])
  moreover have "(100::rat) - 1 / 10 ^ 13 \<le> (1 - 1 / 2 ^ 53) ^ 3 / (1 + 1 / 2 ^ 53) * 100"
    by (simp add: field_simps)
  moreover have "(1 + 1 / 2 ^ 53) ^ 3 / (1 - 1 / 2 ^ 53) * 100 \<le> (100::rat) + 1 / 10 ^ 13"
    by (simp add: field_simps)
  ultimately show ?thesis
    by (rule within_tolerance)
qed


lemma row_total_positive:
  assumes "(s, v) \<in> set keys"
  shows "0 < sum_list (map (\<lambda>v. count_list keys (s, v)) (sort (unique (map snd keys))))"
proof -
  let ?cols = "sort (unique (map snd keys))"
  from assms have "v \<in> set ?cols"
    by (force simp: set_unique)
  then have "count_list keys (s, v) \<in> set (map (\<lambda>v. count_list keys (s, v)) ?cols)"
    by (simp del: set_sort)
  then have "count_list keys (s, v) \<le> sum_list (map (\<lambda>v. count_list keys (s, v)) ?cols)"
    by (rule member_le_sum_list) simp_all
  moreover from assms have "count_list keys (s, v) \<noteq> 0"
    by (simp add: count_list_0_iff)
  ultimately show ?thesis
    by linarith
qed

lemma map_fst_rating_subject:
  "map fst (rating_subject data) = sort (unique (map fst (subject_rating_keys data)))"
  by (simp add: rating_subject_def Let_def comp_def)

lemma rating_subject_row_sum:
  assumes "e \<in> set (rating_subject data)"
  shows "\<bar>sum_list (map snd (snd e)) - 100\<bar> \<le> 1 / 10 ^ 13"
proof -
  define keys where "keys = subject_rating_keys data"
  define cols where "cols = sort (unique (map snd keys))"
  define cell where "cell = (\<lambda>s v. count_list keys (s, v))"
  define total where "total = (\<lambda>s. sum_list (map (cell s) cols))"
  from assms obtain s where s: "s \<in> set (map fst keys)"
    and e: "e = (s, map (\<lambda>v. (v, percent (cell s v) (total s))) cols)"
    by (auto simp: rating_subject_def Let_def set_unique keys_def cols_def cell_def total_def)
  from s obtain v where "(s, v) \<in> set keys" by auto
  then have pos: "0 < sum_list (map (cell s) cols)"
    unfolding cell_def cols_def by (rule row_total_positive)
  have "sum_list (map snd (snd e))
          = sum_list (map (\<lambda>v. percent (cell s v) (sum_list (map (cell s) cols))) cols)"
    unfolding e total_def by (simp add: comp_def)
  with row_sum_close [OF pos] show ?thesis
    by (simp only:)
qed

lemma rating_subject_subjects:
  "fst ` set (rating_subject data) = {Subject r | r. r \<in> set data \<and> Rating r \<noteq> None}"
proof -
  have "fst ` set (rating_subject data) = set (map fst (rating_subject data))"
    by simp
  also have "\<dots> = fst ` set (subject_rating_keys data)"
    unfolding map_fst_rating_subject by (simp add: set_unique)
  also have "\<dots> = {Subject r | r. r \<in> set data \<and> Rating r \<noteq> None}"
    by (force simp: set_subject_rating_keys)
  finally show ?thesis .
qed

lemma sidebar_filters_rated:
  assumes "sidebar_filters w R = Inr data" and "r \<in> set data"
  shows "Rating r \<noteq> None"
proof -
  from assms(1) sidebar_filters_cases [of w R]
  obtain sf rr sr where "data = apply_filters sf rr sr R"
    by auto
  with assms(2) have "fge (Rating r) (fst rr)"
    by (simp add: apply_filters_conj)
  then show ?thesis
    by (cases "fst rr"; cases "Rating r") (simp_all add: fge_def)
qed

subsection \<open>The filters\<close>

text \<open>
  Claim C1. For every table \<open>R\<close> and every selection of subjects, rating range and
  student range, the three masks return rows of \<open>R\<close> in the order they have in
  \<open>R\<close>. The script either returns such a result, for the selections its widgets
  gave, or ends with ValueError (when no row is left for the student slider).
\<close>

theorem filters_yield_sublist:
  "subseq (apply_filters sf rr sr R) R
   \<and> set (apply_filters sf rr sr R) \<subseteq> set R
   \<and> (sidebar_filters w R = Inl ValueError
      \<or> (\<exists>R'. sidebar_filters w R = Inr R' \<and> subseq R' R \<and> set R' \<subseteq> set R))"
proof -
  have sub: "subseq (apply_filters a b c R) R" for a b c
    by (simp add: apply_filters_conj)
  have mem: "set (apply_filters a b c R) \<subseteq> set R" for a b c
    by (simp add: apply_filters_conj)
  from sidebar_filters_cases [of w R] sub mem
  have "sidebar_filters w R = Inl ValueError
      \<or> (\<exists>R'. sidebar_filters w R = Inr R' \<and> subseq R' R \<and> set R' \<subseteq> set R)"
    by metis
  with sub mem show ?thesis by blast
qed

text \<open>
  Claim C7. The three masks can be applied in any of the six orders with the same
  result, and the result is the table filtered by the conjunction of the three
  conditions.
\<close>

theorem filters_order_independent:
  "filter_student sr (filter_rating rr (filter_subject sf R)) = apply_filters sf rr sr R
   \<and> filter_rating rr (filter_student sr (filter_subject sf R)) = apply_filters sf rr sr R
   \<and> filter_student sr (filter_subject sf (filter_rating rr R)) = apply_filters sf rr sr R
   \<and> filter_subject sf (filter_student sr (filter_rating rr R)) = apply_filters sf rr sr R
   \<and> filter_rating rr (filter_subject sf (filter_student sr R)) = apply_filters sf rr sr R
   \<and> filter_subject sf (filter_rating rr (filter_student sr R)) = apply_filters sf rr sr R
   \<and> apply_filters sf rr sr R =
       filter (\<lambda>r. (sf = [] \<or> Subject r \<in> set sf)
          \<and> (fge (Rating r) (fst rr) \<and> fle (Rating r) (snd rr))
          \<and> (fst sr \<le> Student_ID r \<and> Student_ID r \<le> snd sr)) R"
  unfolding apply_filters_conj
  by (auto simp: filter_subject_def filter_rating_def filter_student_def intro: filter_cong)

text \<open>
  Claim C9. An empty selection of subjects keeps every row, and so does a selection of
  all the subjects of the table (the default of the widget among them); a selection
  that is not empty keeps exactly the rows whose subject is selected.
\<close>

theorem subject_filter_policy:
  "(sf = [] \<longrightarrow> filter_subject sf R = R)
   \<and> (set sf = Subject ` set R \<longrightarrow> filter_subject sf R = R)
   \<and> filter_subject (unique (map Subject R)) R = R
   \<and> (sf \<noteq> [] \<longrightarrow> filter_subject sf R = filter (\<lambda>r. Subject r \<in> set sf) R
        \<and> set (filter_subject sf R) = {r \<in> set R. Subject r \<in> set sf})"
  by (auto simp: filter_subject_def set_unique)

theorem subject_filter_policy_witness:
  "filter_subject [] [row_math_4, row_art_3] = [row_math_4, row_art_3]
   \<and> filter_subject [''Art'', ''Math''] [row_math_4, row_art_3] = [row_math_4, row_art_3]
   \<and> filter_subject [''Art''] [row_math_4, row_art_3] = [row_art_3]"
  using subject_filter_policy [of "[]" "[row_math_4, row_art_3]"]
    subject_filter_policy [of "[''Art'', ''Math'']" "[row_math_4, row_art_3]"]
    subject_filter_policy [of "[''Art'']" "[row_math_4, row_art_3]"]
  by (simp add: row_math_4_def row_art_3_def)

subsection \<open>Key metrics\<close>

text \<open>
  Claim C2. A user who leaves the three widgets untouched does not get the metrics of the
  whole table when a row has no rating: the untouched rating slider keeps exactly the
  rows that have a rating (and the run ends with ValueError when there is none). The
  average rating is that of the whole table all the same. On a table of three rated
  rows and one unrated row, the total shown is 3 and the number of students shown is 3,
  where the whole table has 4 and 4.
\<close>

theorem untouched_filters_drop_unrated:
  "shown_metrics untouched R =
     (if filter (\<lambda>r. Rating r \<noteq> None) R = [] then Inl ValueError
      else Inr (key_metrics (filter (\<lambda>r. Rating r \<noteq> None) R)))
   \<and> Avg_Rating (key_metrics (filter (\<lambda>r. Rating r \<noteq> None) R)) = Avg_Rating (key_metrics R)
   \<and> shown_metrics untouched [row_math_4, row_math_5, row_art_3, row_unrated]
       = Inr \<lparr>Total_Feedbacks = 3, Avg_Rating = Some 4, Unique_Subjects = 2,
               Total_Students = 3, Total_Comments = 2\<rparr>
   \<and> key_metrics [row_math_4, row_math_5, row_art_3, row_unrated]
       = \<lparr>Total_Feedbacks = 4, Avg_Rating = Some 4, Unique_Subjects = 2,
          Total_Students = 4, Total_Comments = 2\<rparr>"
proof -
  have 1: "shown_metrics untouched R =
     (if filter (\<lambda>r. Rating r \<noteq> None) R = [] then Inl ValueError
      else Inr (key_metrics (filter (\<lambda>r. Rating r \<noteq> None) R)))"
    by (simp add: shown_metrics_def sidebar_filters_untouched)
  have 2: "Avg_Rating (key_metrics (filter (\<lambda>r. Rating r \<noteq> None) R)) = Avg_Rating (key_metrics R)"
    unfolding key_metrics_def series_mean_def present_rated by simp
  have 3: "shown_metrics untouched [row_math_4, row_math_5, row_art_3, row_unrated]
       = Inr \<lparr>Total_Feedbacks = 3, Avg_Rating = Some 4, Unique_Subjects = 2,
               Total_Students = 3, Total_Comments = 2\<rparr>"
    by (simp add: shown_metrics_def sidebar_filters_untouched key_metrics_def series_mean_def
        nunique_def row_math_4_def row_math_5_def row_art_3_def row_unrated_def)
  have 4: "key_metrics [row_math_4, row_math_5, row_art_3, row_unrated]
       = \<lparr>Total_Feedbacks = 4, Avg_Rating = Some 4, Unique_Subjects = 2,
          Total_Students = 4, Total_Comments = 2\<rparr>"
    by (simp add: key_metrics_def series_mean_def nunique_def row_math_4_def row_math_5_def
        row_art_3_def row_unrated_def)
  from 1 2 3 4 show ?thesis by blast
qed

text \<open>
  Claim C3. Line 99 counts every comment that is not missing, blank ones included,
  while line 228 leaves blank comments out of the word cloud: on a table with one
  proper and one blank comment the metric is 2 and the word cloud gets one comment.
\<close>

theorem blank_comment_counted:
  "Total_Comments (key_metrics [row_math_4, row_blank]) = 2
   \<and> wordcloud_comments [row_math_4, row_blank] = [''good'']
   \<and> strip (the (Comment row_blank)) = []"
  by (simp add: key_metrics_def wordcloud_comments_def strip_def isspace_def
      row_math_4_def row_blank_def)

text \<open>
  Claim C6. A rating range without any row in it leaves the student slider without
  rows, and the run ends with ValueError before any metric or table is computed; so
  does a run on a table without rows. Only when the student range is what empties the
  table does the run go on: the metrics of the empty table are zero counts and an
  undefined average, and every table behind a chart is empty.
\<close>

theorem empty_view_raises:
  "dashboard quicksort (selecting [''Math''] (Some 2, Some 3) (1, 6)) [row_math_1, row_math_5]
     = Inl ValueError
   \<and> dashboard quicksort untouched [] = Inl ValueError
   \<and> dashboard quicksort (selecting [''Math''] (Some 1, Some 5) (2, 3))
         [row_math_1, row_math_5]
     = Inr ([], key_metrics [], chart_tables quicksort [])
   \<and> key_metrics [] = \<lparr>Total_Feedbacks = 0, Avg_Rating = None, Unique_Subjects = 0,
        Total_Students = 0, Total_Comments = 0\<rparr>
   \<and> chart_tables quicksort [] =
       \<lparr>Subject_Distribution = [], Subject_wise_Average_Rating = [],
        Rating_Across_Students = [], Rating_Count_by_Subject = [],
        Feedback_Count_by_Subject = [], Rating_Distribution_by_Subject = [],
        Comment_Analysis = []\<rparr>"
  by (simp add: dashboard_def sidebar_filters_eq selecting_def untouched_def Let_def
      filter_subject_def filter_rating_def filter_student_def fge_def key_metrics_def
      series_mean_def nunique_def chart_tables_def subject_counts_def value_counts_def
      sort_by_Nil subject_avg_def sort_values_def groupby_def student_avg_def subject_rating_counts_def
      subject_rating_keys_def subject_counts_head_def rating_subject_def comments_text_def
      wordcloud_comments_def row_math_1_def row_math_5_def)

subsection \<open>The tables behind the charts\<close>

text \<open>
  Claim C4, as amended. The per-student averages have one entry per student, in
  ascending order of the student id; an entry is the mean of the ratings of that
  student's rows; the table stops after 20 entries, which are the 20 smallest ids.
\<close>

theorem student_avg_sorted_by_id:
  "sorted (map fst (student_avg R)) \<and> distinct (map fst (student_avg R))
   \<and> length (student_avg R) = min 20 (card (Student_ID ` set R))
   \<and> (\<forall>e \<in> set (student_avg R). fst e \<in> Student_ID ` set R
        \<and> snd e = series_mean (map Rating (filter (\<lambda>r. Student_ID r = fst e) R)))
   \<and> (\<forall>k \<in> Student_ID ` set R. k \<in> fst ` set (student_avg R)
        \<or> (\<forall>k' \<in> fst ` set (student_avg R). k' < k))"
proof -
  define ks where "ks = sort (unique (map Student_ID R))"
  have keys: "map fst (student_avg R) = take 20 ks"
    by (simp add: map_fst_student_avg ks_def)
  have sorted: "sorted ks" and distinct: "distinct ks" and set: "set ks = Student_ID ` set R"
    by (simp_all add: ks_def distinct_unique set_unique)
  have 1: "sorted (map fst (student_avg R))"
    unfolding keys using sorted by (rule sorted_wrt_take)
  have 2: "distinct (map fst (student_avg R))"
    unfolding keys using distinct by (rule distinct_take)
  have "length (map fst (student_avg R)) = min 20 (length ks)"
    unfolding keys by simp
  moreover have "length ks = card (Student_ID ` set R)"
    using distinct set by (metis distinct_card)
  ultimately have 3: "length (student_avg R) = min 20 (card (Student_ID ` set R))"
    by simp
  have 4: "\<forall>e \<in> set (student_avg R). fst e \<in> Student_ID ` set R
        \<and> snd e = series_mean (map Rating (filter (\<lambda>r. Student_ID r = fst e) R))"
    using student_avg_entry by blast
  have 5: "k \<in> fst ` set (student_avg R) \<or> (\<forall>k' \<in> fst ` set (student_avg R). k' < k)"
    if "k \<in> Student_ID ` set R" for k
  proof (cases "k \<in> set (take 20 ks)")
    case True
    then show ?thesis using keys by (metis set_map)
  next
    case False
    with that set have "k \<in> set (drop 20 ks)"
      by (metis Un_iff append_take_drop_id set_append)
    with sorted distinct have "\<forall>k' \<in> set (take 20 ks). k' < k"
      using sorted_take_drop_less by blast
    then show ?thesis using keys by (metis set_map)
  qed
  from 1 2 3 4 5 show ?thesis by blast
qed

theorem student_avg_sorted_by_id_witness:
  "student_avg [row_math_4, row_math_5, row_art_3] = [(1, Some 5), (2, Some 4), (3, Some 3)]
   \<and> map fst (student_avg many_students) = [1, 2, 3, 4, 5, 6, 7, 8, 9, 10, 11, 12, 13, 14, 15, 16, 17, 18, 19, 20]
   \<and> card (Student_ID ` set many_students) = 22"
  using student_avg_sorted_by_id [of "[row_math_4, row_math_5, row_art_3]"]
    student_avg_sorted_by_id [of many_students]
  by (simp add: student_avg_def groupby_def series_mean_def many_students_def row_of_def
      row_math_4_def row_math_5_def row_art_3_def)

text \<open>
  Claim C4 as stated fails: the groups are not in the order in which the ids first
  occur. With student 2 before student 1 in the table, the entry of student 1 comes
  first.
\<close>

theorem student_avg_not_first_seen:
  "student_avg [row_math_4, row_math_5] \<noteq> student_avg_first_seen [row_math_4, row_math_5]"
  by (simp add: student_avg_def student_avg_first_seen_def groupby_def series_mean_def
      row_math_4_def row_math_5_def)

text \<open>
  Claim C5, as amended. Whatever the sorting routine, the subject counts have one entry
  per subject, with the number of rows of that subject, in descending order of the
  count. The order of entries of equal count is left to the routine.
\<close>

theorem subject_counts_order:
  "set (subject_counts quicksort R) = (\<lambda>s. (s, count_list (map Subject R) s)) ` Subject ` set R
   \<and> distinct (map fst (subject_counts quicksort R))
   \<and> length (subject_counts quicksort R) = card (Subject ` set R)
   \<and> sorted (rev (map snd (subject_counts quicksort R)))"
  unfolding subject_counts_def
  using set_value_counts [of "on_int64 quicksort" "map Subject R"]
    map_fst_value_counts_distinct [of "on_int64 quicksort" "map Subject R"]
    length_value_counts [of "on_int64 quicksort" "map Subject R"]
    value_counts_descending [of "on_int64 quicksort" "map Subject R"]
  by simp

text \<open>
  Claim C5 as stated fails: entries of equal count are not in ascending order of the
  subject name. With one Math row before one Art row, Math comes first (the routine
  here is insertion sort; lemma \<open>ties_not_by_name_any_routine\<close> shows that no routine
  gives the order of the names on both this table and the one with the rows swapped).
\<close>

theorem subject_counts_ties_not_by_name:
  "subject_counts insertion [row_math_4, row_art_3] = [(''Math'', 1), (''Art'', 1)]
   \<and> \<not> by_count_then_name (subject_counts insertion [row_math_4, row_art_3])"
  by (simp add: subject_counts_def value_counts_def sort_by_def argsort_def insertion_def
      insertion_argsort_def is_argsort_def by_count_then_name_def row_math_4_def
      row_art_3_def)

text \<open>
  Claim C10. Whatever the sorting routine, the table of line 184 is the first 15
  entries of the subject counts: it has at most 15 rows (15 when there are more
  subjects), each with the count of its subject, and no omitted subject has a higher
  count than an included one.
\<close>

theorem subject_counts_head_limit:
  "length (subject_counts_head quicksort R) = min 15 (card (Subject ` set R))
   \<and> subject_counts_head quicksort R = take 15 (subject_counts quicksort R)
   \<and> (\<forall>e \<in> set (subject_counts_head quicksort R).
        fst e \<in> Subject ` set R \<and> snd e = count_list (map Subject R) (fst e))
   \<and> (\<forall>e \<in> set (subject_counts_head quicksort R). \<forall>e' \<in> set (drop 15 (subject_counts quicksort R)).
        snd e' \<le> snd e)"
proof -
  have 1: "length (subject_counts_head quicksort R) = min 15 (card (Subject ` set R))"
    by (simp add: subject_counts_head_def length_value_counts)
  have 2: "subject_counts_head quicksort R = take 15 (subject_counts quicksort R)"
    by (simp add: subject_counts_head_def subject_counts_def)
  have 3: "fst e \<in> Subject ` set R \<and> snd e = count_list (map Subject R) (fst e)"
    if "e \<in> set (subject_counts_head quicksort R)" for e
  proof -
    from that have "e \<in> set (value_counts (on_int64 quicksort) (map Subject R))"
      unfolding subject_counts_head_def by (rule in_set_takeD)
    then show ?thesis
      by (auto simp: set_value_counts)
  qed
  have 4: "snd e' \<le> snd e"
    if "e \<in> set (subject_counts_head quicksort R)" and "e' \<in> set (drop 15 (subject_counts quicksort R))" for e e'
    using that value_counts_descending [of "on_int64 quicksort" "map Subject R"]
    unfolding subject_counts_head_def subject_counts_def
    by (metis descending_take_drop)
  from 1 2 3 4 show ?thesis by blast
qed

theorem subject_counts_head_limit_witness:
  "map fst (subject_counts_head insertion sixteen_subjects)
     = [''Physics'', ''Algebra'', ''Biology'', ''Chemistry'', ''Drama'', ''Economics'',
        ''French'', ''Geography'', ''History'', ''Italian'', ''Japanese'', ''Kinetics'',
        ''Latin'', ''Music'', ''Nursing'']
   \<and> length (subject_counts_head insertion sixteen_subjects) = 15
   \<and> card (Subject ` set sixteen_subjects) = 16
   \<and> drop 15 (subject_counts insertion sixteen_subjects) = [(''Optics'', 1)]"
  using subject_counts_head_limit [of insertion sixteen_subjects]
  by (simp add: subject_counts_head_def subject_counts_def value_counts_def sort_by_def
      argsort_def insertion_def insertion_argsort_def is_argsort_def sixteen_subjects_def
      row_of_def)

text \<open>
  Claim C8. In the normalised cross tabulation the cells of every row, which are 64-bit
  floats, sum to 100 within 0.01 (the sum of their values is meant; lemma
  \<open>rating_subject_row_sum\<close> bounds the distance by \<open>1 / 10 ^ 13\<close>, and the distance is
  not zero in general), every row belongs to a subject of the table, and no subject
  has two rows. Every subject with a rated row has a row; the table the script passes
  in has only rated rows, so there the rows are exactly the subjects of the table.
\<close>

theorem rating_subject_rows_sum_to_100:
  "(\<forall>e \<in> set (rating_subject data).
       \<bar>sum_list (map snd (snd e)) - 100\<bar> \<le> 1 / 100 \<and> fst e \<in> Subject ` set data)
   \<and> distinct (map fst (rating_subject data))
   \<and> (\<forall>r \<in> set data. Rating r \<noteq> None \<longrightarrow> Subject r \<in> fst ` set (rating_subject data))
   \<and> (sidebar_filters w R = Inr data \<longrightarrow>
        fst ` set (rating_subject data) = Subject ` set data)"
proof -
  have 1: "\<bar>sum_list (map snd (snd e)) - 100\<bar> \<le> 1 / 100 \<and> fst e \<in> Subject ` set data"
    if "e \<in> set (rating_subject data)" for e
  proof -
    from that have "fst e \<in> fst ` set (rating_subject data)" by simp
    then have "fst e \<in> Subject ` set data"
      unfolding rating_subject_subjects by auto
    moreover from rating_subject_row_sum [OF that]
    have "\<bar>sum_list (map snd (snd e)) - 100\<bar> \<le> 1 / 100"
      by (rule order_trans) simp
    ultimately show ?thesis by simp
  qed
  have 2: "distinct (map fst (rating_subject data))"
    by (simp add: map_fst_rating_subject distinct_unique)
  have 3: "Subject r \<in> fst ` set (rating_subject data)"
    if "r \<in> set data" and "Rating r \<noteq> None" for r
    unfolding rating_subject_subjects using that by auto
  have 4: "fst ` set (rating_subject data) = Subject ` set data"
    if "sidebar_filters w R = Inr data"
    unfolding rating_subject_subjects using sidebar_filters_rated [OF that] by auto
  from 1 2 3 4 show ?thesis by blast
qed

theorem rating_subject_rows_sum_to_100_witness:
  "rating_subject [row_math_4, row_math_5, row_blank, row_art_3, row_unrated]
     = [(''Art'', [(3, 100), (4, 0), (5, 0)]),
        (''Math'', [(3, 0), (4, 2345624805922133 / 2 ^ 45), (5, 2345624805922133 / 2 ^ 46)])]
   \<and> sum_list (map snd (snd (rating_subject
         [row_math_4, row_math_5, row_blank, row_art_3, row_unrated] ! 1))) = 100 - 1 / 2 ^ 46
   \<and> sidebar_filters untouched [row_math_4, row_math_5, row_blank, row_art_3, row_unrated]
       = Inr [row_math_4, row_math_5, row_blank, row_art_3]
   \<and> fst ` set (rating_subject [row_math_4, row_math_5, row_blank, row_art_3])
       = {''Art'', ''Math''}"
proof -
  have cells: "rating_subject [row_math_4, row_math_5, row_blank, row_art_3, row_unrated]
     = [(''Art'', [(3, 100), (4, 0), (5, 0)]),
        (''Math'', [(3, 0), (4, 2345624805922133 / 2 ^ 45), (5, 2345624805922133 / 2 ^ 46)])]"
    by code_simp
  have view: "sidebar_filters untouched [row_math_4, row_math_5, row_blank, row_art_3, row_unrated]
       = Inr [row_math_4, row_math_5, row_blank, row_art_3]"
    by (simp add: sidebar_filters_untouched row_math_4_def row_math_5_def row_blank_def
        row_art_3_def row_unrated_def)
  have subjects: "Subject ` set [row_math_4, row_math_5, row_blank, row_art_3] = {''Art'', ''Math''}"
    by (auto simp: row_math_4_def row_math_5_def row_blank_def row_art_3_def)
  from rating_subject_rows_sum_to_100
      [of "[row_math_4, row_math_5, row_blank, row_art_3, row_unrated]" untouched "[]"]
    rating_subject_rows_sum_to_100
      [of "[row_math_4, row_math_5, row_blank, row_art_3]" untouched
        "[row_math_4, row_math_5, row_blank, row_art_3, row_unrated]"]
    cells view subjects
  show ?thesis
    by simp
qed

end
